theory Spec2Isabelle
  imports Complex_Main
begin

section \<open>Meridian Energy usage sensor: the CSV-to-statistics conversion\<close>

text \<open>
  This theory embeds \<^verbatim>\<open>MeridianEnergyUsageSensor.update\<close> of
  \<^verbatim>\<open>custom_components/meridian_energy/sensor.py\<close>. The method reads a CSV
  document row by row, filters the rows, and accumulates three series of cumulative sums
  (solar export, day rate, night rate) which it hands to the recorder, one call per series.

  The document enters the model as the list of rows that \<^verbatim>\<open>csv.reader\<close> yields,
  each row a list of strings. Exceptions are values of a sum type: \<open>Inl e\<close> is the
  exception \<open>e\<close> leaving \<^verbatim>\<open>update\<close>.
\<close>

subsection \<open>Data\<close>

datatype error = IndexError | ValueError | OverflowError

text \<open>
  A Python \<^verbatim>\<open>datetime\<close>. \<open>tzinfo\<close> is \<open>None\<close> for a naive value, and the UTC offset
  in seconds for a localized one.
\<close>

record datetime =
  year :: nat
  month :: nat
  day :: nat
  hour :: nat
  minute :: nat
  second :: nat
  microsecond :: nat
  tzinfo :: "int option"

text \<open>A Python \<^verbatim>\<open>time\<close>: hour, minute, second, microsecond, compared in that order.\<close>

type_synonym time = "nat \<times> nat \<times> nat \<times> nat"

definition time_of :: "datetime \<Rightarrow> time" where
  "time_of d = (hour d, minute d, second d, microsecond d)"

fun time_less :: "time \<Rightarrow> time \<Rightarrow> bool" where
  "time_less (h1, m1, s1, u1) (h2, m2, s2, u2) =
     (h1 < h2 \<or> (h1 = h2 \<and> (m1 < m2 \<or> (m1 = m2 \<and> (s1 < s2 \<or> (s1 = s2 \<and> u1 < u2))))))"

definition time_ge :: "time \<Rightarrow> time \<Rightarrow> bool" where
  "time_ge a b = (\<not> time_less a b)"

text \<open>
  The library functions and constants the method uses, none of which is part of the
  source file. They are parameters of the model:
  \<^item> \<open>strptime s\<close> is \<^verbatim>\<open>datetime.strptime(s, "%d/%m/%Y %H:%M:%S")\<close>, \<open>None\<close> when it
    raises \<^verbatim>\<open>ValueError\<close>;
  \<^item> \<open>tz_offset d\<close> is the UTC offset that \<^verbatim>\<open>timezone("Pacific/Auckland").localize\<close>
    attaches to the naive value \<open>d\<close>, \<open>None\<close> when pytz raises \<^verbatim>\<open>OverflowError\<close>
    (it looks one day around \<open>d\<close>, which fails at the ends of the calendar);
  \<^item> \<open>float s\<close> is \<^verbatim>\<open>float(s)\<close>, \<open>None\<close> when it raises \<^verbatim>\<open>ValueError\<close>;
    the type \<open>'q\<close> of its values, their addition \<open>fadd\<close> and the initial \<open>fzero\<close>
    (the integer \<^verbatim>\<open>0\<close> the sums start from) are left open, so that no property of
    floating-point addition is assumed that is not stated;
  \<^item> \<open>DOMAIN\<close> and \<open>SENSOR_NAME\<close> are the constants of \<^verbatim>\<open>const.py\<close>.
\<close>

record 'q pylib =
  strptime :: "string \<Rightarrow> datetime option"
  tz_offset :: "datetime \<Rightarrow> int option"
  float :: "string \<Rightarrow> 'q option"
  fadd :: "'q \<Rightarrow> 'q \<Rightarrow> 'q"
  fzero :: 'q
  DOMAIN :: string
  SENSOR_NAME :: string

text \<open>\<^verbatim>\<open>StatisticData(start=..., sum=...)\<close> and \<^verbatim>\<open>StatisticMetaData(...)\<close>.\<close>

record 'q StatisticData =
  start :: datetime
  sum_val :: 'q

datatype UnitOfEnergy = GIGA_JOULE | KILO_WATT_HOUR | MEGA_JOULE | MEGA_WATT_HOUR | WATT_HOUR

record StatisticMetaData =
  has_mean :: bool
  has_sum :: bool
  name :: string
  source :: string
  statistic_id :: string
  unit_of_measurement :: UnitOfEnergy

text \<open>The six local variables of \<^verbatim>\<open>update\<close> that the loop changes.\<close>

record 'q acc =
  solarStatistics :: "'q StatisticData list"
  solarRunningSum :: 'q
  dayStatistics :: "'q StatisticData list"
  dayRunningSum :: 'q
  nightStatistics :: "'q StatisticData list"
  nightRunningSum :: 'q

definition init :: "'q pylib \<Rightarrow> 'q acc" where
  "init L = \<lparr>solarStatistics = [], solarRunningSum = fzero L,
             dayStatistics = [], dayRunningSum = fzero L,
             nightStatistics = [], nightRunningSum = fzero L\<rparr>"

subsection \<open>The loop body\<close>

text \<open>\<^verbatim>\<open>row[i]\<close> for a constant \<open>i \<ge> 0\<close>: out of range raises \<^verbatim>\<open>IndexError\<close>.\<close>

definition item :: "string list \<Rightarrow> nat \<Rightarrow> error + string" where
  "item row i = (if i < length row then Inr (row ! i) else Inl IndexError)"

text \<open>
  \<^verbatim>\<open>tz.localize(start_date)\<close> keeps the wall-clock fields and sets \<open>tzinfo\<close>;
  \<^verbatim>\<open>.replace(minute=0, second=0, microsecond=0)\<close> rounds down to the hour.
\<close>

definition localize :: "'q pylib \<Rightarrow> datetime \<Rightarrow> error + datetime" where
  "localize L d =
     (case tz_offset L d of None \<Rightarrow> Inl OverflowError
      | Some off \<Rightarrow> Inr (d\<lparr>tzinfo := Some off\<rparr>))"

definition round_hour :: "datetime \<Rightarrow> datetime" where
  "round_hour d = d\<lparr>minute := 0, second := 0, microsecond := 0\<rparr>"

text \<open>How an iteration of the \<^verbatim>\<open>for\<close> loop ends: \<^verbatim>\<open>break\<close>, or on to the next row
  (\<^verbatim>\<open>continue\<close>, or the end of the body).\<close>

datatype loop_ctl = Break | Next

text \<open>
  One iteration, statement by statement. The \<^verbatim>\<open>elif row[0] == "DET"\<close> branch only
  logs and is left out. The two bounds of the night rate,
  \<^verbatim>\<open>datetime.strptime("21:00", "%H:%M").time()\<close> and the same for \<^verbatim>\<open>"07:00"\<close>, are the
  times \<open>(21, 0, 0, 0)\<close> and \<open>(7, 0, 0, 0)\<close>.
\<close>

definition row_step :: "'q pylib \<Rightarrow> 'q acc \<Rightarrow> string list \<Rightarrow> error + (loop_ctl \<times> 'q acc)" where
  "row_step L st row =
    (if length row < 2 then Inr (Break, st)
     else if row ! 0 = ''HDR'' then Inr (Next, st)
     else
      (case item row 6 of
         Inl e \<Rightarrow> Inl e
       | Inr energy_flow_direction \<Rightarrow>
      (case item row 11 of
         Inl e \<Rightarrow> Inl e
       | Inr read_status \<Rightarrow>
      (if read_status \<noteq> ''RD'' then Inr (Next, st)
       else
      (case item row 9 of
         Inl e \<Rightarrow> Inl e
       | Inr read_period_start_date_time \<Rightarrow>
      (case strptime L read_period_start_date_time of
         None \<Rightarrow> Inl ValueError
       | Some start_date \<Rightarrow>
      (if minute start_date = 59 then Inr (Next, st)
       else
      (case localize L start_date of
         Inl e \<Rightarrow> Inl e
       | Inr start_date' \<Rightarrow>
      (let rounded_date = round_hour start_date' in
      (case item row 12 of
         Inl e \<Rightarrow> Inl e
       | Inr unit_quantity_active_energy_volume \<Rightarrow>
      (if energy_flow_direction = ''I'' then
         (case float L unit_quantity_active_energy_volume of
            None \<Rightarrow> Inl ValueError
          | Some q \<Rightarrow>
              (let s = fadd L (solarRunningSum st) q in
               Inr (Next, st\<lparr>solarRunningSum := s,
                      solarStatistics := solarStatistics st
                        @ [\<lparr>start = rounded_date, sum_val = s\<rparr>]\<rparr>)))
       else if time_ge (time_of rounded_date) (21, 0, 0, 0)
               \<or> time_less (time_of rounded_date) (7, 0, 0, 0) then
         (case float L unit_quantity_active_energy_volume of
            None \<Rightarrow> Inl ValueError
          | Some q \<Rightarrow>
              (let s = fadd L (nightRunningSum st) q in
               Inr (Next, st\<lparr>nightRunningSum := s,
                      nightStatistics := nightStatistics st
                        @ [\<lparr>start = rounded_date, sum_val = s\<rparr>]\<rparr>)))
       else
         (case float L unit_quantity_active_energy_volume of
            None \<Rightarrow> Inl ValueError
          | Some q \<Rightarrow>
              (let s = fadd L (dayRunningSum st) q in
               Inr (Next, st\<lparr>dayRunningSum := s,
                      dayStatistics := dayStatistics st
                        @ [\<lparr>start = rounded_date, sum_val = s\<rparr>]\<rparr>))))))))))))))"

subsection \<open>The loop and the three calls of the recorder\<close>

text \<open>
  The \<^verbatim>\<open>for\<close> loop over the rows. The result also tells whether the loop was left by
  \<^verbatim>\<open>break\<close> (\<open>Break\<close>) or ran out of rows (\<open>Next\<close>).
\<close>

fun for_rows :: "'q pylib \<Rightarrow> 'q acc \<Rightarrow> string list list \<Rightarrow> error + (loop_ctl \<times> 'q acc)" where
  "for_rows L st [] = Inr (Next, st)"
| "for_rows L st (row # rows) =
     (case row_step L st row of
        Inl e \<Rightarrow> Inl e
      | Inr (Break, st') \<Rightarrow> Inr (Break, st')
      | Inr (Next, st') \<Rightarrow> for_rows L st' rows)"

definition solarMetadata :: "'q pylib \<Rightarrow> StatisticMetaData" where
  "solarMetadata L = \<lparr>has_mean = False, has_sum = True,
     name = SENSOR_NAME L @ '' (Solar Export)'', source = DOMAIN L,
     statistic_id = DOMAIN L @ '':return_to_grid'',
     unit_of_measurement = KILO_WATT_HOUR\<rparr>"

definition dayMetadata :: "'q pylib \<Rightarrow> StatisticMetaData" where
  "dayMetadata L = \<lparr>has_mean = False, has_sum = True,
     name = SENSOR_NAME L @ '' (Day)'', source = DOMAIN L,
     statistic_id = DOMAIN L @ '':consumption_day'',
     unit_of_measurement = KILO_WATT_HOUR\<rparr>"

definition nightMetadata :: "'q pylib \<Rightarrow> StatisticMetaData" where
  "nightMetadata L = \<lparr>has_mean = False, has_sum = True,
     name = SENSOR_NAME L @ '' (Night)'', source = DOMAIN L,
     statistic_id = DOMAIN L @ '':consumption_night'',
     unit_of_measurement = KILO_WATT_HOUR\<rparr>"

text \<open>
  \<^verbatim>\<open>update\<close> from the parsed document on. The result is the sequence of calls of
  \<^verbatim>\<open>async_add_external_statistics\<close>, each with its metadata and its series, in the order
  they are made. The calls come after the loop, so an exception in the loop leaves
  \<^verbatim>\<open>update\<close> before any call is made: \<open>Inl e\<close> carries no call. The recorder
  itself is outside the source file; a call is recorded here and taken to return.
\<close>

type_synonym 'q sink_call = "StatisticMetaData \<times> 'q StatisticData list"

definition update :: "'q pylib \<Rightarrow> string list list \<Rightarrow> error + 'q sink_call list" where
  "update L rows =
     (case for_rows L (init L) rows of
        Inl e \<Rightarrow> Inl e
      | Inr (c, st) \<Rightarrow>
          Inr [(solarMetadata L, solarStatistics st),
               (dayMetadata L, dayStatistics st),
               (nightMetadata L, nightStatistics st)])"

subsection \<open>Channels, accepted rows and their readings\<close>

text \<open>
  The three series by name, to state properties of all of them at once: the list of points
  and the running sum of a channel, and the assignments the loop body makes when it adds
  the quantity \<open>q\<close> at the bucket \<open>b\<close> to a channel.
\<close>

datatype channel = Solar | Day | Night

fun series :: "channel \<Rightarrow> 'q acc \<Rightarrow> 'q StatisticData list" where
  "series Solar st = solarStatistics st"
| "series Day st = dayStatistics st"
| "series Night st = nightStatistics st"

fun running :: "channel \<Rightarrow> 'q acc \<Rightarrow> 'q" where
  "running Solar st = solarRunningSum st"
| "running Day st = dayRunningSum st"
| "running Night st = nightRunningSum st"

fun accumulate :: "'q pylib \<Rightarrow> channel \<Rightarrow> datetime \<Rightarrow> 'q \<Rightarrow> 'q acc \<Rightarrow> 'q acc" where
  "accumulate L Solar b q st =
     st\<lparr>solarRunningSum := fadd L (solarRunningSum st) q,
        solarStatistics := solarStatistics st
          @ [\<lparr>start = b, sum_val = fadd L (solarRunningSum st) q\<rparr>]\<rparr>"
| "accumulate L Day b q st =
     st\<lparr>dayRunningSum := fadd L (dayRunningSum st) q,
        dayStatistics := dayStatistics st
          @ [\<lparr>start = b, sum_val = fadd L (dayRunningSum st) q\<rparr>]\<rparr>"
| "accumulate L Night b q st =
     st\<lparr>nightRunningSum := fadd L (nightRunningSum st) q,
        nightStatistics := nightStatistics st
          @ [\<lparr>start = b, sum_val = fadd L (nightRunningSum st) q\<rparr>]\<rparr>"

text \<open>The series of a channel among the calls that \<open>update\<close> makes (Solar, Day, Night).\<close>

definition emitted :: "channel \<Rightarrow> 'q sink_call list \<Rightarrow> 'q StatisticData list" where
  "emitted ch calls = snd (calls ! (case ch of Solar \<Rightarrow> 0 | Day \<Rightarrow> 1 | Night \<Rightarrow> 2))"

text \<open>The cumulative sum that precedes the point at position \<open>i\<close> of a series.\<close>

definition sum_before :: "'q pylib \<Rightarrow> 'q StatisticData list \<Rightarrow> nat \<Rightarrow> 'q" where
  "sum_before L pts i = (if i = 0 then fzero L else sum_val (pts ! (i - 1)))"

text \<open>
  A row passes the filters of the loop body when it is not a header, has the thirteen
  fields the body reads, has read status \<^verbatim>\<open>RD\<close>, and its timestamp parses, is not at
  minute 59 and can be localized: these are the rows whose quantity the body goes on to
  convert.
\<close>

definition accepted :: "'q pylib \<Rightarrow> string list \<Rightarrow> bool" where
  "accepted L row \<longleftrightarrow>
     13 \<le> length row \<and> row ! 0 \<noteq> ''HDR'' \<and> row ! 11 = ''RD'' \<and>
     (case strptime L (row ! 9) of None \<Rightarrow> False
      | Some d \<Rightarrow> minute d \<noteq> 59 \<and> tz_offset L d \<noteq> None)"

text \<open>The channel that the conditions of the body choose, from field 6 and the bucket.\<close>

definition channel_for :: "string \<Rightarrow> datetime \<Rightarrow> channel" where
  "channel_for flow b =
     (if flow = ''I'' then Solar
      else if time_ge (time_of b) (21, 0, 0, 0) \<or> time_less (time_of b) (7, 0, 0, 0) then Night
      else Day)"

text \<open>The reading of an accepted row whose quantity converts: channel, bucket, quantity.\<close>

definition reading :: "'q pylib \<Rightarrow> string list \<Rightarrow> (channel \<times> datetime \<times> 'q) option" where
  "reading L row =
     (if accepted L row then
        case strptime L (row ! 9) of None \<Rightarrow> None
        | Some d \<Rightarrow>
            (case tz_offset L d of None \<Rightarrow> None
             | Some off \<Rightarrow>
                 (case float L (row ! 12) of None \<Rightarrow> None
                  | Some q \<Rightarrow>
                      (let b = round_hour (d\<lparr>tzinfo := Some off\<rparr>)
                       in Some (channel_for (row ! 6) b, b, q))))
      else None)"

subsection \<open>Invariants of the loop\<close>

text \<open>
  Three properties of the state that hold before the loop and after every iteration; they
  are used in the proofs only. \<open>linked\<close>: the running sum of a channel is the sum of its
  last point, or the initial 0 while the series is empty.
\<close>

definition linked :: "'q pylib \<Rightarrow> 'q acc \<Rightarrow> bool" where
  "linked L st \<longleftrightarrow>
     (\<forall>ch. running ch st = sum_before L (series ch st) (length (series ch st)))"

text \<open>
  \<open>nondecreasing\<close>: for an order \<open>le\<close> on the quantities, the sums of a series, with the
  initial 0 in front, are ordered, and none is above the running sum.
\<close>

definition nondecreasing :: "('q \<Rightarrow> 'q \<Rightarrow> bool) \<Rightarrow> 'q pylib \<Rightarrow> 'q acc \<Rightarrow> bool" where
  "nondecreasing le L st \<longleftrightarrow>
     (\<forall>ch. sorted_wrt le (fzero L # map sum_val (series ch st))
        \<and> (\<forall>x \<in> set (fzero L # map sum_val (series ch st)).
              x = running ch st \<or> le x (running ch st)))"

text \<open>\<open>stepwise\<close>: each point adds a quantity that is not below 0 to the sum before it.\<close>

definition stepwise :: "('q \<Rightarrow> 'q \<Rightarrow> bool) \<Rightarrow> 'q pylib \<Rightarrow> 'q acc \<Rightarrow> bool" where
  "stepwise le L st \<longleftrightarrow>
     (\<forall>ch. \<forall>i < length (series ch st). \<exists>q. le (fzero L) q
        \<and> sum_val (series ch st ! i) = fadd L (sum_before L (series ch st) i) q)"

subsection \<open>A concrete library, to run the model\<close>

text \<open>
  The theorems below hold for every library \<open>L\<close>. To evaluate the model on documents,
  \<open>stdlib\<close> gives the parameters concrete values:
  \<^item> \<open>strptime_dmy_hms\<close> reads \<^verbatim>\<open>d/m/yyyy H:M:S\<close> with ASCII digits, one or two per
    field and four for the year, one blank between date and time, and checks the ranges
    of the calendar; on the strings it accepts, Python's \<^verbatim>\<open>strptime\<close> returns the same
    fields;
  \<^item> \<open>auckland_offset\<close> is New Zealand's rule in force since September 2007: daylight time
    (UTC+13) until the first Sunday of April 02:00, standard time (UTC+12) until the last
    Sunday of September 03:00, with pytz's choice of standard time in the repeated and in
    the skipped hour;
  \<^item> \<open>float_decimal\<close> reads plain decimal literals (\<^verbatim>\<open>12\<close>, \<^verbatim>\<open>1.5\<close>, \<^verbatim>\<open>.5\<close>, \<^verbatim>\<open>2.\<close>)
    as exact numbers, with exact addition: rounding to binary floating point is not
    reproduced here, and the other spellings Python accepts (signs, exponents, blanks,
    underscores, infinities, NaN) are rejected;
  \<^item> \<open>DOMAIN\<close> and \<open>SENSOR_NAME\<close> are sample values.
\<close>

definition digit :: "char \<Rightarrow> nat option" where
  "digit = map_of
     [(CHR ''0'', 0), (CHR ''1'', 1), (CHR ''2'', 2), (CHR ''3'', 3), (CHR ''4'', 4),
      (CHR ''5'', 5), (CHR ''6'', 6), (CHR ''7'', 7), (CHR ''8'', 8), (CHR ''9'', 9)]"

fun digits :: "nat \<Rightarrow> string \<Rightarrow> nat option" where
  "digits n [] = Some n"
| "digits n (c # cs) = (case digit c of None \<Rightarrow> None | Some k \<Rightarrow> digits (10 * n + k) cs)"

definition number :: "string \<Rightarrow> nat option" where
  "number s = (if s = [] then None else digits 0 s)"

fun split_on :: "char \<Rightarrow> string \<Rightarrow> string list" where
  "split_on c [] = [[]]"
| "split_on c (x # xs) =
     (let ws = split_on c xs in if x = c then [] # ws else (x # hd ws) # tl ws)"

definition is_leap :: "nat \<Rightarrow> bool" where
  "is_leap y = (y mod 4 = 0 \<and> (y mod 100 \<noteq> 0 \<or> y mod 400 = 0))"

definition days_in_month :: "nat \<Rightarrow> nat \<Rightarrow> nat" where
  "days_in_month y m =
     (if m = 2 then (if is_leap y then 29 else 28)
      else if m = 4 \<or> m = 6 \<or> m = 9 \<or> m = 11 then 30 else 31)"

definition strptime_dmy_hms :: "string \<Rightarrow> datetime option" where
  "strptime_dmy_hms s =
     (case split_on CHR '' '' s of
        [ds, ts] \<Rightarrow>
          (case (split_on CHR ''/'' ds, split_on CHR '':'' ts) of
             ([d, m, y], [H, M, S]) \<Rightarrow>
               (case (number d, number m, number y, number H, number M, number S) of
                  (Some dd, Some mm, Some yy, Some HH, Some MM, Some SS) \<Rightarrow>
                    if length d \<le> 2 \<and> length m \<le> 2 \<and> length y = 4
                       \<and> length H \<le> 2 \<and> length M \<le> 2 \<and> length S \<le> 2
                       \<and> 1 \<le> yy \<and> 1 \<le> mm \<and> mm \<le> 12
                       \<and> 1 \<le> dd \<and> dd \<le> days_in_month yy mm
                       \<and> HH < 24 \<and> MM < 60 \<and> SS < 60
                    then Some \<lparr>year = yy, month = mm, day = dd, hour = HH, minute = MM,
                               second = SS, microsecond = 0, tzinfo = None\<rparr>
                    else None
                | _ \<Rightarrow> None)
           | _ \<Rightarrow> None)
      | _ \<Rightarrow> None)"

text \<open>The day of the week, 0 for Sunday.\<close>

definition day_of_week :: "nat \<Rightarrow> nat \<Rightarrow> nat \<Rightarrow> nat" where
  "day_of_week y m d =
     (let y' = (if m < 3 then y - 1 else y)
      in (y' + y' div 4 - y' div 100 + y' div 400
          + [0, 3, 2, 5, 0, 3, 5, 1, 4, 6, 2, 4] ! (m - 1) + d) mod 7)"

definition auckland_offset :: "datetime \<Rightarrow> int option" where
  "auckland_offset d =
     (if (year d = 1 \<and> month d = 1 \<and> day d = 1)
         \<or> (year d = 9999 \<and> month d = 12 \<and> day d = 31) then None
      else Some
        (if month d < 4 \<or> 9 < month d then 46800
         else if month d = 4 then
           (let fs = 1 + (7 - day_of_week (year d) 4 1) mod 7
            in if day d < fs \<or> (day d = fs \<and> hour d < 2) then 46800 else 43200)
         else if month d = 9 then
           (let ls = 30 - day_of_week (year d) 9 30
            in if day d < ls \<or> (day d = ls \<and> hour d < 3) then 43200 else 46800)
         else 43200))"

definition float_decimal :: "string \<Rightarrow> real option" where
  "float_decimal s =
     (case split_on CHR ''.'' s of
        [ip] \<Rightarrow> map_option real (number ip)
      | [ip, fp] \<Rightarrow>
          (case (digits 0 ip, digits 0 fp) of
             (Some i, Some f) \<Rightarrow>
               if ip = [] \<and> fp = [] then None
               else Some (real i + real f / 10 ^ length fp)
           | _ \<Rightarrow> None)
      | _ \<Rightarrow> None)"

definition stdlib :: "real pylib" where
  "stdlib = \<lparr>strptime = strptime_dmy_hms, tz_offset = auckland_offset,
     float = float_decimal, fadd = (+), fzero = 0,
     DOMAIN = ''meridian_energy'', SENSOR_NAME = ''Meridian Energy''\<rparr>"

text \<open>
  Python's \<^verbatim>\<open>float\<close> also accepts spellings that are not numbers: \<^verbatim>\<open>float("nan")\<close>
  returns the value NaN, and a sum with NaN is NaN. \<open>nanlib\<close> is \<open>stdlib\<close> with that
  added: its quantities are the exact numbers and NaN.
\<close>

datatype pyfloat = Finite real | NaN

fun pyfloat_add :: "pyfloat \<Rightarrow> pyfloat \<Rightarrow> pyfloat" where
  "pyfloat_add (Finite a) (Finite b) = Finite (a + b)"
| "pyfloat_add _ _ = NaN"

definition float_nan :: "string \<Rightarrow> pyfloat option" where
  "float_nan s = (if s = ''nan'' then Some NaN else map_option Finite (float_decimal s))"

definition nanlib :: "pyfloat pylib" where
  "nanlib = \<lparr>strptime = strptime_dmy_hms, tz_offset = auckland_offset,
     float = float_nan, fadd = pyfloat_add, fzero = Finite 0,
     DOMAIN = ''meridian_energy'', SENSOR_NAME = ''Meridian Energy''\<rparr>"

text \<open>
  A detail row of the EIEP 13A layout with the given flow direction (field 6), start of
  the read period (field 9), read status (field 11) and quantity (field 12).
\<close>

definition det_row :: "string \<Rightarrow> string \<Rightarrow> string \<Rightarrow> string \<Rightarrow> string list" where
  "det_row flow ts status qty =
     [''DET'', ''MERI'', ''0000012345AB1C2'', ''000'', ''NZDT'', ''210987654'', flow,
      ''UN'', ''24'', ts, ts, status, qty]"

text \<open>
  Sample data for running the model: the start of hour \<open>h\<close> of 15 March 2023 in New
  Zealand daylight time; a document with a header, an estimated row and accepted rows of
  all three channels, and the calls \<open>update\<close> makes for it; and the calls for a document
  with two day-rate rows in the same hour and a solar row between them.
\<close>

definition hour_start :: "nat \<Rightarrow> datetime" where
  "hour_start h = \<lparr>year = 2023, month = 3, day = 15, hour = h, minute = 0, second = 0,
     microsecond = 0, tzinfo = Some 46800\<rparr>"

definition mixed_doc :: "string list list" where
  "mixed_doc =
     [[''HDR'', ''ICPHH''],
      det_row ''E'' ''15/03/2023 10:30:00'' ''RD'' ''1.0'',
      det_row ''I'' ''15/03/2023 12:30:00'' ''RD'' ''0.5'',
      det_row ''E'' ''15/03/2023 13:30:00'' ''EST'' ''9.9'',
      det_row ''E'' ''15/03/2023 22:15:00'' ''RD'' ''2.0'',
      det_row ''E'' ''15/03/2023 14:00:00'' ''RD'' ''2.5'']"

definition mixed_calls :: "real sink_call list" where
  "mixed_calls =
     [(solarMetadata stdlib, [\<lparr>start = hour_start 12, sum_val = 0.5\<rparr>]),
      (dayMetadata stdlib,
         [\<lparr>start = hour_start 10, sum_val = 1\<rparr>, \<lparr>start = hour_start 14, sum_val = 3.5\<rparr>]),
      (nightMetadata stdlib, [\<lparr>start = hour_start 22, sum_val = 2\<rparr>])]"

definition same_hour_calls :: "real sink_call list" where
  "same_hour_calls =
     [(solarMetadata stdlib, [\<lparr>start = hour_start 10, sum_val = 0.5\<rparr>]),
      (dayMetadata stdlib,
         [\<lparr>start = hour_start 10, sum_val = 1\<rparr>, \<lparr>start = hour_start 10, sum_val = 3.5\<rparr>]),
      (nightMetadata stdlib, [])]"

section \<open>Properties\<close>

subsection \<open>Field access, time of day, and single rows\<close>

lemma item_in: "i < length row \<Longrightarrow> item row i = Inr (row ! i)"
  by (simp add: item_def)

lemma night_bounds:
  "time_ge (time_of b) (21, 0, 0, 0) \<longleftrightarrow> 21 \<le> hour b"
  "time_less (time_of b) (7, 0, 0, 0) \<longleftrightarrow> hour b < 7"
  by (auto simp: time_ge_def time_of_def)

lemma round_hour_fields:
  "hour (round_hour d) = hour d" "minute (round_hour d) = 0"
  "tzinfo (round_hour d) = tzinfo d"
  by (simp_all add: round_hour_def)

lemma row_step_short: "length row < 2 \<Longrightarrow> row_step L st row = Inr (Break, st)"
  by (simp add: row_step_def)

lemma row_step_status:
  "12 \<le> length row \<Longrightarrow> row ! 11 \<noteq> ''RD'' \<Longrightarrow> row_step L st row = Inr (Next, st)"
  by (simp add: row_step_def item_in)

lemma row_step_minute:
  "12 \<le> length row \<Longrightarrow> strptime L (row ! 9) = Some d \<Longrightarrow> minute d = 59
   \<Longrightarrow> row_step L st row = Inr (Next, st)"
  by (simp add: row_step_def item_in)

lemma row_step_accepted:
  assumes "accepted L row"
  shows "row_step L st row =
    (case float L (row ! 12) of None \<Rightarrow> Inl ValueError
     | Some q \<Rightarrow>
        (case reading L row of None \<Rightarrow> Inl ValueError
         | Some (ch, b, q) \<Rightarrow> Inr (Next, accumulate L ch b q st)))"
  using assms
  by (auto simp: accepted_def reading_def row_step_def item_in localize_def channel_for_def
      Let_def split: option.splits)

lemma row_step_reading:
  "reading L row = Some (ch, b, q) \<Longrightarrow> row_step L st row = Inr (Next, accumulate L ch b q st)"
  using row_step_accepted [of L row st]
  by (auto simp: reading_def split: if_splits option.splits)

lemma row_step_no_reading:
  "reading L row = None \<Longrightarrow> row_step L st row = Inr (c, st') \<Longrightarrow> st' = st"
  by (auto simp: reading_def accepted_def row_step_def item_def localize_def Let_def
      split: if_splits option.splits sum.splits)

lemma for_rows_append:
  "for_rows L st (xs @ ys) =
     (case for_rows L st xs of Inr (Next, st') \<Rightarrow> for_rows L st' ys | r \<Rightarrow> r)"
  by (induction xs arbitrary: st) (auto split: sum.splits loop_ctl.splits prod.splits)

subsection \<open>The loop over a document split in two\<close>

lemma for_rows_drop:
  assumes "\<And>st. row_step L st row = Inr (Next, st)"
  shows "for_rows L st (pre @ row # rest) = for_rows L st (pre @ rest)"
  by (simp add: for_rows_append assms split: sum.splits loop_ctl.splits prod.splits)

lemma for_rows_halt:
  assumes "length row < 2"
  shows "for_rows L st (pre @ row # rest) =
     (case for_rows L st pre of Inr (c, st') \<Rightarrow> Inr (Break, st') | Inl e \<Rightarrow> Inl e)"
  by (simp add: for_rows_append row_step_short [OF assms]
      split: sum.splits loop_ctl.splits prod.splits)

lemma for_rows_raise:
  assumes "for_rows L st pre = Inr (Next, st')" and "row_step L st' row = Inl e"
  shows "for_rows L st (pre @ row # rest) = Inl e"
  by (simp add: for_rows_append assms)

text \<open>The definitions to unfold when the model is run on a concrete document.\<close>

lemmas run_defs =
  update_def row_step_def item_def localize_def round_hour_def init_def
  time_ge_def time_of_def stdlib_def det_row_def
  strptime_dmy_hms_def number_def digit_def days_in_month_def is_leap_def
  auckland_offset_def day_of_week_def float_decimal_def Let_def

subsection \<open>Rows that raise\<close>

lemma row_step_Break: "row_step L s r = Inr (Break, s') \<Longrightarrow> length r < 2"
  by (auto simp: row_step_def Let_def split: if_splits option.splits sum.splits)

lemma row_step_no_field:
  assumes "2 \<le> length row" and "row ! 0 \<noteq> ''HDR''" and "length row < 12"
  shows "row_step L st row = Inl IndexError"
  using assms by (auto simp: row_step_def item_def split: sum.splits)

lemma row_step_no_quantity:
  assumes "length row = 12" and "row ! 0 \<noteq> ''HDR''" and "row ! 11 = ''RD''"
    and "strptime L (row ! 9) = Some d" and "minute d \<noteq> 59" and "tz_offset L d = Some off"
  shows "row_step L st row = Inl IndexError"
  using assms by (simp add: row_step_def item_def localize_def)

subsection \<open>Rows that are skipped\<close>

text \<open>
  C6. A row whose read-status field (field 11) is not exactly \<^verbatim>\<open>RD\<close> adds no point to
  any of the three series and changes no running sum: the iteration leaves the whole
  state as it was and goes on to the next row.
\<close>

theorem not_RD_contributes_nothing:
  assumes "12 \<le> length row" and "row ! 11 \<noteq> ''RD''"
  shows "row_step L st row = Inr (Next, st)"
  using assms by (simp add: row_step_def item_def)

theorem not_RD_contributes_nothing_witness:
  "12 \<le> length (det_row ''E'' ''15/03/2023 10:30:00'' ''EST'' ''1.5'')
   \<and> det_row ''E'' ''15/03/2023 10:30:00'' ''EST'' ''1.5'' ! 11 \<noteq> ''RD''
   \<and> row_step stdlib (init stdlib) (det_row ''E'' ''15/03/2023 10:30:00'' ''EST'' ''1.5'')
       = Inr (Next, init stdlib)"
  using not_RD_contributes_nothing
    [of "det_row ''E'' ''15/03/2023 10:30:00'' ''EST'' ''1.5''" stdlib "init stdlib"]
  by (simp add: det_row_def)

text \<open>
  C8. A row with read status \<^verbatim>\<open>EST\<close> is as good as absent: the document with the row
  and the document without it give the same result, whatever comes before and after.
\<close>

theorem estimated_row_as_if_absent:
  assumes "12 \<le> length row" and "row ! 11 = ''EST''"
  shows "update L (pre @ row # rest) = update L (pre @ rest)"
proof -
  have "row ! 11 \<noteq> ''RD''" using assms(2) by simp
  then have "\<And>st. row_step L st row = Inr (Next, st)"
    using assms(1) by (rule row_step_status [rotated])
  then show ?thesis
    by (simp add: update_def for_rows_drop)
qed

theorem estimated_row_as_if_absent_witness:
  "12 \<le> length (det_row ''E'' ''15/03/2023 11:30:00'' ''EST'' ''4.0'')
   \<and> det_row ''E'' ''15/03/2023 11:30:00'' ''EST'' ''4.0'' ! 11 = ''EST''
   \<and> update stdlib
        ([det_row ''E'' ''15/03/2023 10:30:00'' ''RD'' ''1.0'']
         @ det_row ''E'' ''15/03/2023 11:30:00'' ''EST'' ''4.0''
         # [det_row ''E'' ''15/03/2023 12:30:00'' ''RD'' ''2.5''])
     = update stdlib
        ([det_row ''E'' ''15/03/2023 10:30:00'' ''RD'' ''1.0'']
         @ [det_row ''E'' ''15/03/2023 12:30:00'' ''RD'' ''2.5''])
   \<and> map sum_val (emitted Day (projr (update stdlib
        ([det_row ''E'' ''15/03/2023 10:30:00'' ''RD'' ''1.0'']
         @ [det_row ''E'' ''15/03/2023 12:30:00'' ''RD'' ''2.5''])))) = [1, 3.5]"
  using estimated_row_as_if_absent
    [of "det_row ''E'' ''15/03/2023 11:30:00'' ''EST'' ''4.0''" stdlib
        "[det_row ''E'' ''15/03/2023 10:30:00'' ''RD'' ''1.0'']"
        "[det_row ''E'' ''15/03/2023 12:30:00'' ''RD'' ''2.5'']"]
  by (simp add: run_defs emitted_def)

text \<open>
  C5. A row whose timestamp (field 9) parses to a time at minute 59 adds no point to any
  series and changes no running sum: the iteration leaves the state as it was, and the
  document gives the same result with or without the row. The test reads the parsed
  timestamp, before it is rounded down to the hour: the rounded timestamp has minute 0, and
  the row is skipped whatever localizing it would give.
\<close>

theorem minute_59_contributes_nothing:
  assumes "12 \<le> length row" and "strptime L (row ! 9) = Some d" and "minute d = 59"
  shows "row_step L st row = Inr (Next, st)
    \<and> update L (pre @ row # rest) = update L (pre @ rest)
    \<and> minute (round_hour d) \<noteq> 59"
proof -
  have skip: "\<And>s. row_step L s row = Inr (Next, s)"
    using assms by (rule row_step_minute)
  have "update L (pre @ row # rest) = update L (pre @ rest)"
    by (simp add: update_def for_rows_drop [of L row, OF skip])
  then show ?thesis
    using skip by (simp add: round_hour_def)
qed

theorem minute_59_contributes_nothing_witness:
  "12 \<le> length (det_row ''E'' ''15/03/2023 23:59:00'' ''RD'' ''12.0'')
   \<and> strptime stdlib (det_row ''E'' ''15/03/2023 23:59:00'' ''RD'' ''12.0'' ! 9)
       = Some \<lparr>year = 2023, month = 3, day = 15, hour = 23, minute = 59, second = 0,
               microsecond = 0, tzinfo = None\<rparr>
   \<and> row_step stdlib (init stdlib) (det_row ''E'' ''15/03/2023 23:59:00'' ''RD'' ''12.0'')
       = Inr (Next, init stdlib)
   \<and> update stdlib ([det_row ''E'' ''15/03/2023 10:30:00'' ''RD'' ''1.0'']
         @ det_row ''E'' ''15/03/2023 23:59:00'' ''RD'' ''12.0'' # [])
       = update stdlib ([det_row ''E'' ''15/03/2023 10:30:00'' ''RD'' ''1.0''] @ [])"
proof -
  have p: "strptime stdlib (det_row ''E'' ''15/03/2023 23:59:00'' ''RD'' ''12.0'' ! 9)
       = Some \<lparr>year = 2023, month = 3, day = 15, hour = 23, minute = 59, second = 0,
               microsecond = 0, tzinfo = None\<rparr>"
    by (simp add: run_defs)
  have l: "12 \<le> length (det_row ''E'' ''15/03/2023 23:59:00'' ''RD'' ''12.0'')"
    by (simp add: det_row_def)
  show ?thesis
    using minute_59_contributes_nothing [OF l p, of "init stdlib"
        "[det_row ''E'' ''15/03/2023 10:30:00'' ''RD'' ''1.0'']" "[]"] l p
    by simp
qed

subsection \<open>Rows with too few fields\<close>

text \<open>
  C2, as the code has it. The loop stops at a row with fewer than 2 fields: no later row is
  processed, and the result is the one of the rows before it, so every point accumulated
  from them is handed over unchanged.
\<close>

theorem short_row_halts:
  assumes "length row < 2"
  shows "update L (pre @ row # rest) = update L pre"
  by (simp add: update_def for_rows_halt [OF assms] split: sum.splits prod.splits)

theorem short_row_halts_witness:
  "length [''''] < 2
   \<and> update stdlib ([det_row ''E'' ''15/03/2023 10:30:00'' ''RD'' ''1.5''] @ [''''] #
        [det_row ''E'' ''15/03/2023 11:30:00'' ''RD'' ''2.5''])
     = update stdlib [det_row ''E'' ''15/03/2023 10:30:00'' ''RD'' ''1.5'']"
  using short_row_halts [of "['''']" stdlib
      "[det_row ''E'' ''15/03/2023 10:30:00'' ''RD'' ''1.5'']"
      "[det_row ''E'' ''15/03/2023 11:30:00'' ''RD'' ''2.5'']"]
  by simp

text \<open>
  C2 as stated puts the bound at 13 fields. A row of 3 fields after an accepted row does
  not stop the loop: it raises \<^verbatim>\<open>IndexError\<close>, and the point of the first row, which
  \<open>update\<close> hands over when the document ends there, is never handed over.
\<close>

theorem thirteen_field_guard_counterexample:
  "length [''DET'', ''MERI'', ''0000012345AB1C2''] < 13
   \<and> update stdlib ([det_row ''E'' ''15/03/2023 10:30:00'' ''RD'' ''1.5'']
        @ [''DET'', ''MERI'', ''0000012345AB1C2''] # []) = Inl IndexError
   \<and> update stdlib [det_row ''E'' ''15/03/2023 10:30:00'' ''RD'' ''1.5'']
     = Inr [(solarMetadata stdlib, []),
            (dayMetadata stdlib,
               [\<lparr>start = \<lparr>year = 2023, month = 3, day = 15, hour = 10, minute = 0,
                          second = 0, microsecond = 0, tzinfo = Some 46800\<rparr>,
                 sum_val = 1.5\<rparr>]),
            (nightMetadata stdlib, [])]"
  by (simp add: run_defs)

text \<open>
  C10, as the code has it. When the loop reaches a row that is not a header and has at
  least 2 fields, it raises \<^verbatim>\<open>IndexError\<close>, and no series is handed over, if the row
  has fewer than 12 fields (fields 6 or 11 are missing), or if it has exactly 12 fields,
  read status \<^verbatim>\<open>RD\<close> and a timestamp that parses, is not at minute 59 and can be
  localized (field 12 is missing). The \<^verbatim>\<open>break\<close> is taken for rows with fewer than
  2 fields and for no other row.
\<close>

theorem short_row_index_error:
  assumes "for_rows L (init L) pre = Inr (Next, st)"
    and "2 \<le> length row" and "row ! 0 \<noteq> ''HDR''"
    and "length row < 12
         \<or> (length row = 12 \<and> row ! 11 = ''RD''
             \<and> (\<exists>d. strptime L (row ! 9) = Some d \<and> minute d \<noteq> 59 \<and> tz_offset L d \<noteq> None))"
  shows "row_step L st row = Inl IndexError
    \<and> update L (pre @ row # rest) = Inl IndexError
    \<and> (row_step L s r = Inr (Break, s') \<longleftrightarrow> length r < 2 \<and> s' = s)"
proof -
  have e: "row_step L st row = Inl IndexError"
    using assms(2-4) row_step_no_field [of row L st] row_step_no_quantity [of row L _ _ st]
    by auto
  have "for_rows L (init L) (pre @ row # rest) = Inl IndexError"
    using assms(1) e by (rule for_rows_raise)
  moreover have "row_step L s r = Inr (Break, s') \<longleftrightarrow> length r < 2 \<and> s' = s"
    using row_step_Break [of L s r s'] row_step_short [of r L s] by auto
  ultimately show ?thesis
    using e by (simp add: update_def)
qed

theorem short_row_index_error_witness:
  "for_rows stdlib (init stdlib) [[''HDR'', ''ICPHH'']] = Inr (Next, init stdlib)
   \<and> 2 \<le> length [''DET'', ''MERI'', ''0000012345AB1C2'', ''000'', ''NZDT'', ''210987654'',
        ''E'', ''UN'', ''24'', ''15/03/2023 10:30:00'', ''15/03/2023 11:00:00'', ''RD'']
   \<and> [''DET'', ''MERI'', ''0000012345AB1C2'', ''000'', ''NZDT'', ''210987654'',
        ''E'', ''UN'', ''24'', ''15/03/2023 10:30:00'', ''15/03/2023 11:00:00'', ''RD''] ! 0
       \<noteq> ''HDR''
   \<and> length [''DET'', ''MERI'', ''0000012345AB1C2'', ''000'', ''NZDT'', ''210987654'',
        ''E'', ''UN'', ''24'', ''15/03/2023 10:30:00'', ''15/03/2023 11:00:00'', ''RD''] = 12
   \<and> update stdlib ([[''HDR'', ''ICPHH'']]
        @ [''DET'', ''MERI'', ''0000012345AB1C2'', ''000'', ''NZDT'', ''210987654'',
           ''E'', ''UN'', ''24'', ''15/03/2023 10:30:00'', ''15/03/2023 11:00:00'', ''RD'']
        # []) = Inl IndexError"
proof -
  have reach: "for_rows stdlib (init stdlib) [[''HDR'', ''ICPHH'']] = Inr (Next, init stdlib)"
    by (simp add: row_step_def)
  have shape: "length [''DET'', ''MERI'', ''0000012345AB1C2'', ''000'', ''NZDT'', ''210987654'',
        ''E'', ''UN'', ''24'', ''15/03/2023 10:30:00'', ''15/03/2023 11:00:00'', ''RD''] < 12
    \<or> (length [''DET'', ''MERI'', ''0000012345AB1C2'', ''000'', ''NZDT'', ''210987654'',
        ''E'', ''UN'', ''24'', ''15/03/2023 10:30:00'', ''15/03/2023 11:00:00'', ''RD''] = 12
       \<and> [''DET'', ''MERI'', ''0000012345AB1C2'', ''000'', ''NZDT'', ''210987654'',
        ''E'', ''UN'', ''24'', ''15/03/2023 10:30:00'', ''15/03/2023 11:00:00'', ''RD''] ! 11
          = ''RD''
       \<and> (\<exists>d. strptime stdlib ([''DET'', ''MERI'', ''0000012345AB1C2'', ''000'', ''NZDT'',
              ''210987654'', ''E'', ''UN'', ''24'', ''15/03/2023 10:30:00'',
              ''15/03/2023 11:00:00'', ''RD''] ! 9) = Some d
            \<and> minute d \<noteq> 59 \<and> tz_offset stdlib d \<noteq> None))"
    by (simp add: run_defs)
  show ?thesis
    using short_row_index_error [OF reach _ _ shape, of "[]"] reach
    by simp
qed

text \<open>
  C10 as stated has every row of 2 to 12 fields that is not a header raise
  \<^verbatim>\<open>IndexError\<close>. A row of 12 fields whose read status is \<^verbatim>\<open>EST\<close> is skipped before
  field 12 is read, and \<open>update\<close> completes with its three calls.
\<close>

theorem short_row_index_error_counterexample:
  "2 \<le> length [''DET'', ''MERI'', ''0000012345AB1C2'', ''000'', ''NZDT'', ''210987654'',
        ''E'', ''UN'', ''24'', ''15/03/2023 10:30:00'', ''15/03/2023 11:00:00'', ''EST'']
   \<and> length [''DET'', ''MERI'', ''0000012345AB1C2'', ''000'', ''NZDT'', ''210987654'',
        ''E'', ''UN'', ''24'', ''15/03/2023 10:30:00'', ''15/03/2023 11:00:00'', ''EST''] < 13
   \<and> [''DET'', ''MERI'', ''0000012345AB1C2'', ''000'', ''NZDT'', ''210987654'',
        ''E'', ''UN'', ''24'', ''15/03/2023 10:30:00'', ''15/03/2023 11:00:00'', ''EST''] ! 0
       \<noteq> ''HDR''
   \<and> update stdlib [[''DET'', ''MERI'', ''0000012345AB1C2'', ''000'', ''NZDT'', ''210987654'',
        ''E'', ''UN'', ''24'', ''15/03/2023 10:30:00'', ''15/03/2023 11:00:00'', ''EST'']]
     = Inr [(solarMetadata stdlib, []), (dayMetadata stdlib, []), (nightMetadata stdlib, [])]"
  by (simp add: update_def row_step_def item_def init_def)

subsection \<open>Accepted rows\<close>

text \<open>
  C4, as the code has it. When the loop reaches a row that passes the filters and on whose
  quantity (field 12) \<^verbatim>\<open>float\<close> raises \<^verbatim>\<open>ValueError\<close>, the iteration produces no new
  state, so no running sum is advanced by the row, and \<open>update\<close> ends with the exception
  before any series is handed over, whatever the rows before it accumulated and whatever
  follows. The rows before it may be skipped rows, as when the row is the first that passes
  the filters, or accepted rows.
\<close>

theorem bad_quantity_aborts:
  assumes "for_rows L (init L) pre = Inr (Next, st)"
    and "accepted L row" and "float L (row ! 12) = None"
  shows "row_step L st row = Inl ValueError
    \<and> update L (pre @ row # rest) = Inl ValueError"
proof -
  have e: "row_step L st row = Inl ValueError"
    using assms(2,3) by (simp add: row_step_accepted)
  have "for_rows L (init L) (pre @ row # rest) = Inl ValueError"
    using assms(1) e by (rule for_rows_raise)
  then show ?thesis
    using e by (simp add: update_def)
qed

theorem bad_quantity_aborts_witness:
  "for_rows stdlib (init stdlib)
      [[''HDR'', ''ICPHH''], det_row ''E'' ''15/03/2023 09:30:00'' ''EST'' ''0.7'']
     = Inr (Next, init stdlib)
   \<and> accepted stdlib (det_row ''E'' ''15/03/2023 10:30:00'' ''RD'' ''n/a'')
   \<and> float stdlib (det_row ''E'' ''15/03/2023 10:30:00'' ''RD'' ''n/a'' ! 12) = None
   \<and> update stdlib
        ([[''HDR'', ''ICPHH''], det_row ''E'' ''15/03/2023 09:30:00'' ''EST'' ''0.7'']
         @ det_row ''E'' ''15/03/2023 10:30:00'' ''RD'' ''n/a''
         # [det_row ''E'' ''15/03/2023 11:30:00'' ''RD'' ''2.5'']) = Inl ValueError"
proof -
  have reach: "for_rows stdlib (init stdlib)
      [[''HDR'', ''ICPHH''], det_row ''E'' ''15/03/2023 09:30:00'' ''EST'' ''0.7'']
     = Inr (Next, init stdlib)"
    by (simp add: row_step_def item_def det_row_def)
  have acc: "accepted stdlib (det_row ''E'' ''15/03/2023 10:30:00'' ''RD'' ''n/a'')"
    by (simp add: accepted_def run_defs)
  have bad: "float stdlib (det_row ''E'' ''15/03/2023 10:30:00'' ''RD'' ''n/a'' ! 12) = None"
    by (simp add: run_defs)
  show ?thesis
    using bad_quantity_aborts [OF reach acc bad,
        of "[det_row ''E'' ''15/03/2023 11:30:00'' ''RD'' ''2.5'']"] reach acc bad
    by simp
qed

text \<open>
  C4 as stated has every quantity that is not a number abort the run. The quantity
  \<^verbatim>\<open>nan\<close> is not a number, but \<^verbatim>\<open>float\<close> returns on it: the row is accumulated, the
  run completes, and the day-rate series is handed over with NaN as the sum of that row and
  of the row after it.
\<close>

theorem bad_quantity_aborts_counterexample:
  "accepted nanlib (det_row ''E'' ''15/03/2023 10:30:00'' ''RD'' ''nan'')
   \<and> float_decimal ''nan'' = None
   \<and> update nanlib
        [[''HDR'', ''ICPHH''],
         det_row ''E'' ''15/03/2023 10:30:00'' ''RD'' ''nan'',
         det_row ''E'' ''15/03/2023 11:30:00'' ''RD'' ''1.5'']
     = Inr [(solarMetadata nanlib, []),
            (dayMetadata nanlib,
               [\<lparr>start = hour_start 10, sum_val = NaN\<rparr>,
                \<lparr>start = hour_start 11, sum_val = NaN\<rparr>]),
            (nightMetadata nanlib, [])]"
  by (simp add: accepted_def nanlib_def float_nan_def hour_start_def update_def row_step_def
      item_def localize_def round_hour_def init_def time_ge_def time_of_def det_row_def
      strptime_dmy_hms_def number_def digit_def days_in_month_def is_leap_def
      auckland_offset_def day_of_week_def float_decimal_def Let_def)

text \<open>
  C1. A row that passes the filters and whose quantity converts is accumulated into exactly
  one channel: Solar when field 6 is \<^verbatim>\<open>I\<close>, whatever the time of day; otherwise Night
  when the hour of the bucket is 21 or later or earlier than 7, and Day when it is from 7
  to 20. The bucket is the localized timestamp rounded down to the hour, and has the hour
  of the parsed timestamp.
\<close>

theorem channel_classification:
  assumes "13 \<le> length row" and "row ! 0 \<noteq> ''HDR''" and "row ! 11 = ''RD''"
    and "strptime L (row ! 9) = Some d" and "minute d \<noteq> 59"
    and "tz_offset L d = Some off" and "float L (row ! 12) = Some q"
    and "b = round_hour (d\<lparr>tzinfo := Some off\<rparr>)"
  shows "(row ! 6 = ''I'' \<longrightarrow> row_step L st row = Inr (Next, accumulate L Solar b q st))
    \<and> (row ! 6 \<noteq> ''I'' \<and> (21 \<le> hour b \<or> hour b < 7)
         \<longrightarrow> row_step L st row = Inr (Next, accumulate L Night b q st))
    \<and> (row ! 6 \<noteq> ''I'' \<and> 7 \<le> hour b \<and> hour b < 21
         \<longrightarrow> row_step L st row = Inr (Next, accumulate L Day b q st))
    \<and> hour b = hour d"
  using assms
  by (auto simp: row_step_def item_def localize_def Let_def night_bounds round_hour_fields)

theorem channel_classification_witness:
  "13 \<le> length (det_row ''E'' ''15/03/2023 22:15:00'' ''RD'' ''1.5'')
   \<and> det_row ''E'' ''15/03/2023 22:15:00'' ''RD'' ''1.5'' ! 0 \<noteq> ''HDR''
   \<and> det_row ''E'' ''15/03/2023 22:15:00'' ''RD'' ''1.5'' ! 11 = ''RD''
   \<and> strptime stdlib (det_row ''E'' ''15/03/2023 22:15:00'' ''RD'' ''1.5'' ! 9)
       = Some \<lparr>year = 2023, month = 3, day = 15, hour = 22, minute = 15, second = 0,
               microsecond = 0, tzinfo = None\<rparr>
   \<and> tz_offset stdlib \<lparr>year = 2023, month = 3, day = 15, hour = 22, minute = 15, second = 0,
               microsecond = 0, tzinfo = None\<rparr> = Some 46800
   \<and> float stdlib (det_row ''E'' ''15/03/2023 22:15:00'' ''RD'' ''1.5'' ! 12) = Some 1.5
   \<and> row_step stdlib (init stdlib) (det_row ''E'' ''15/03/2023 22:15:00'' ''RD'' ''1.5'')
       = Inr (Next, accumulate stdlib Night
           \<lparr>year = 2023, month = 3, day = 15, hour = 22, minute = 0, second = 0,
            microsecond = 0, tzinfo = Some 46800\<rparr> 1.5 (init stdlib))"
proof -
  let ?row = "det_row ''E'' ''15/03/2023 22:15:00'' ''RD'' ''1.5''"
  let ?d = "\<lparr>year = 2023, month = 3, day = 15, hour = 22, minute = 15, second = 0,
               microsecond = 0, tzinfo = None\<rparr>"
  have 1: "13 \<le> length ?row" and 2: "?row ! 0 \<noteq> ''HDR''" and 3: "?row ! 11 = ''RD''"
    by (simp_all add: det_row_def)
  have 4: "strptime stdlib (?row ! 9) = Some ?d"
    by (simp add: run_defs)
  have 5: "minute ?d \<noteq> 59"
    by simp
  have 6: "tz_offset stdlib ?d = Some 46800"
    by (simp add: run_defs)
  have 7: "float stdlib (?row ! 12) = Some 1.5"
    by (simp add: run_defs)
  have 8: "\<lparr>year = 2023, month = 3, day = 15, hour = 22, minute = 0, second = 0,
            microsecond = 0, tzinfo = Some 46800\<rparr> = round_hour (?d\<lparr>tzinfo := Some 46800\<rparr>)"
    by (simp add: round_hour_def)
  have 9: "?row ! 6 \<noteq> ''I''"
    by (simp add: det_row_def)
  show ?thesis
    using channel_classification [OF 1 2 3 4 5 6 7 8, of "init stdlib"] 1 2 3 4 6 7 9
    by simp
qed

subsection \<open>What the loop keeps\<close>

lemma series_accumulate:
  "series ch' (accumulate L ch b q st) =
     (if ch' = ch then series ch st @ [\<lparr>start = b, sum_val = fadd L (running ch st) q\<rparr>]
      else series ch' st)"
  by (cases ch; cases ch'; simp)

lemma running_accumulate:
  "running ch' (accumulate L ch b q st) =
     (if ch' = ch then fadd L (running ch st) q else running ch' st)"
  by (cases ch; cases ch'; simp)

lemma sum_before_append:
  "i \<le> length xs \<Longrightarrow> sum_before L (xs @ ys) i = sum_before L xs i"
  by (auto simp: sum_before_def nth_append)

lemma sum_before_last:
  "sum_before L (xs @ [p]) (Suc (length xs)) = sum_val p"
  by (simp add: sum_before_def)

lemma init_channels: "running ch (init L) = fzero L" "series ch (init L) = []"
  by (cases ch; simp add: init_def)+

lemma reading_accepted:
  "reading L r = Some (ch, b, q) \<Longrightarrow> accepted L r \<and> float L (r ! 12) = Some q"
  by (auto simp: reading_def Let_def split: if_splits option.splits)

lemma row_step_cases:
  assumes "row_step L st row = Inr (c, st')"
  obtains "st' = st" | ch b q where "reading L row = Some (ch, b, q)"
    and "c = Next" and "st' = accumulate L ch b q st"
proof (cases "reading L row")
  case None
  then show ?thesis using assms that(1) by (simp add: row_step_no_reading)
next
  case (Some t)
  obtain ch b q where "t = (ch, b, q)" by (cases t)
  then show ?thesis
    using Some assms that(2) row_step_reading [of L row ch b q st] by simp
qed

text \<open>A property of the state that every accumulation keeps holds after the loop.\<close>

lemma for_rows_invariant:
  assumes "for_rows L st rows = Inr (c, st')" and "P st"
    and "\<And>s r ch b q. P s \<Longrightarrow> r \<in> set rows \<Longrightarrow> reading L r = Some (ch, b, q)
           \<Longrightarrow> P (accumulate L ch b q s)"
  shows "P st'"
  using assms
proof (induction rows arbitrary: st)
  case Nil
  then show ?case by simp
next
  case (Cons row rows)
  show ?case
  proof (cases "row_step L st row")
    case (Inl e)
    then show ?thesis using Cons.prems(1) by simp
  next
    case (Inr p)
    obtain k s where p: "p = (k, s)" by (cases p)
    have step: "row_step L st row = Inr (k, s)" using Inr p by simp
    have Ps: "P s"
    proof (rule row_step_cases [OF step])
      assume "s = st"
      then show ?thesis using Cons.prems(2) by simp
    next
      fix ch b q
      assume "reading L row = Some (ch, b, q)" and "s = accumulate L ch b q st"
      then show ?thesis
        using Cons.prems(3) [of st row ch b q] Cons.prems(2) by simp
    qed
    show ?thesis
    proof (cases k)
      case Break
      then show ?thesis using Cons.prems(1) step Ps by simp
    next
      case Next
      then have "for_rows L s rows = Inr (c, st')"
        using Cons.prems(1) step by simp
      then show ?thesis
      proof (rule Cons.IH)
        show "P s" by (rule Ps)
      next
        fix s' r ch b q
        assume "P s'" and "r \<in> set rows" and "reading L r = Some (ch, b, q)"
        then show "P (accumulate L ch b q s')"
          using Cons.prems(3) [of s' r ch b q] by simp
      qed
    qed
  qed
qed

lemma linked_accumulate: "linked L st \<Longrightarrow> linked L (accumulate L ch b q st)"
  by (simp add: linked_def series_accumulate running_accumulate sum_before_append
      sum_before_last)

lemma linked_for_rows:
  assumes "linked L st" and "for_rows L st rows = Inr (c, st')"
  shows "linked L st'"
  using assms(2,1) by (rule for_rows_invariant) (rule linked_accumulate)

lemma series_for_rows:
  assumes "for_rows L st rows = Inr (c, st')"
  shows "\<exists>ext. series ch st' = series ch st @ ext"
  using assms
  by (rule for_rows_invariant [where P = "\<lambda>s. \<exists>ext. series ch s = series ch st @ ext"])
    (auto simp: series_accumulate)

lemma for_rows_no_break:
  "\<forall>r \<in> set rows. 2 \<le> length r \<Longrightarrow> for_rows L st rows = Inr (c, st') \<Longrightarrow> c = Next"
proof (induction rows arbitrary: st)
  case Nil
  then show ?case by simp
next
  case (Cons row rows)
  have nb: "row_step L st row \<noteq> Inr (Break, s)" for s
    using Cons.prems(1) row_step_Break [of L st row s] by auto
  show ?case
  proof (cases "row_step L st row")
    case (Inl e)
    then show ?thesis using Cons.prems by simp
  next
    case (Inr p)
    obtain k s where p: "p = (k, s)" by (cases p)
    then have "k = Next" using nb Inr by (cases k) auto
    then show ?thesis using Cons Inr p by simp
  qed
qed

lemma for_rows_prefix:
  assumes "for_rows L st (xs @ ys) = Inr (c, st')" and "\<forall>r \<in> set xs. 2 \<le> length r"
  shows "\<exists>s. for_rows L st xs = Inr (Next, s) \<and> for_rows L s ys = Inr (c, st')"
proof (cases "for_rows L st xs")
  case (Inl e)
  then show ?thesis using assms(1) by (simp add: for_rows_append)
next
  case (Inr p)
  obtain k s where p: "p = (k, s)" by (cases p)
  then have "k = Next" using for_rows_no_break [OF assms(2)] Inr by blast
  then show ?thesis using assms(1) Inr p by (simp add: for_rows_append)
qed

lemma emitted_update:
  assumes "update L rows = Inr calls"
  shows "\<exists>c st. for_rows L (init L) rows = Inr (c, st)
    \<and> (\<forall>ch. emitted ch calls = series ch st)"
proof (cases "for_rows L (init L) rows")
  case (Inl e)
  then show ?thesis using assms by (simp add: update_def)
next
  case (Inr p)
  obtain c st where p: "p = (c, st)" by (cases p)
  then have calls: "calls = [(solarMetadata L, solarStatistics st),
       (dayMetadata L, dayStatistics st), (nightMetadata L, nightStatistics st)]"
    using assms Inr by (auto simp: update_def)
  have "emitted ch calls = series ch st" for ch
    by (cases ch) (simp_all add: calls emitted_def)
  then show ?thesis using Inr p by blast
qed

lemma nondecreasing_accumulate:
  assumes trans: "\<And>a b c. le a b \<Longrightarrow> le b c \<Longrightarrow> le a c"
    and zero: "le (fzero L) (fzero L)"
    and add: "\<And>a q. le (fzero L) a \<Longrightarrow> le (fzero L) q \<Longrightarrow> le a (fadd L a q)"
    and q: "le (fzero L) q"
    and inv: "nondecreasing le L st"
  shows "nondecreasing le L (accumulate L ch b q st)"
proof -
  let ?r = "running ch st"
  let ?xs = "fzero L # map sum_val (series ch st)"
  have sorted: "sorted_wrt le ?xs"
    and below: "\<And>x. x \<in> set ?xs \<Longrightarrow> x = ?r \<or> le x ?r"
    using inv by (auto simp: nondecreasing_def)
  have r0: "le (fzero L) ?r"
    using below [of "fzero L"] zero by auto
  have up: "le ?r (fadd L ?r q)"
    using r0 q by (rule add)
  have all: "le x (fadd L ?r q)" if "x \<in> set ?xs" for x
    using below [OF that] up trans by blast
  have "sorted_wrt le (?xs @ [fadd L ?r q])"
    using sorted all by (simp add: sorted_wrt_append)
  then show ?thesis
    using inv all by (auto simp: nondecreasing_def series_accumulate running_accumulate)
qed

lemma stepwise_accumulate:
  assumes q: "le (fzero L) q" and lk: "linked L st" and inv: "stepwise le L st"
  shows "stepwise le L (accumulate L ch b q st)"
proof -
  let ?pts = "series ch st"
  let ?p = "\<lparr>start = b, sum_val = fadd L (running ch st) q\<rparr>"
  have "\<exists>q'. le (fzero L) q'
      \<and> sum_val ((?pts @ [?p]) ! i) = fadd L (sum_before L (?pts @ [?p]) i) q'"
    if "i < Suc (length ?pts)" for i
  proof (cases "i < length ?pts")
    case True
    then show ?thesis
      using inv by (simp add: stepwise_def nth_append sum_before_append)
  next
    case False
    then have i: "i = length ?pts" using that by simp
    have "sum_before L (?pts @ [?p]) i = running ch st"
      using lk by (simp add: i sum_before_append linked_def)
    then show ?thesis using q by (auto simp: i)
  qed
  then show ?thesis
    using inv by (auto simp: stepwise_def series_accumulate)
qed

subsection \<open>The series of cumulative sums\<close>

text \<open>
  C3. When every row that passes the filters has a quantity that converts to a number that
  is not below 0, then in each of the three series handed over the cumulative sums are
  non-decreasing in the order the points were appended, starting from the 0 of the
  invocation: the list of sums with that 0 in front is ordered, and each sum is the sum
  before it (0 for the first point of the series) plus a quantity that is not below 0.

  The order \<open>le\<close> on the quantities is a parameter, as their addition is. What is assumed
  of them is stated: \<open>le\<close> is transitive, 0 is not below itself, and adding a quantity that
  is not below 0 to a sum that is not below 0 gives a result that is not below the sum.
  Exact numbers with \<open>\<le>\<close> satisfy this, and so does floating-point addition with
  rounding on the values that are not NaN.
\<close>

theorem running_sums_nondecreasing:
  assumes trans: "\<And>a b c. le a b \<Longrightarrow> le b c \<Longrightarrow> le a c"
    and zero: "le (fzero L) (fzero L)"
    and add: "\<And>a q. le (fzero L) a \<Longrightarrow> le (fzero L) q \<Longrightarrow> le a (fadd L a q)"
    and nonneg: "\<forall>r \<in> set rows. accepted L r
                  \<longrightarrow> (case float L (r ! 12) of None \<Rightarrow> False
                       | Some q \<Rightarrow> le (fzero L) q)"
    and run: "update L rows = Inr calls"
  shows "sorted_wrt le (fzero L # map sum_val (emitted ch calls))
    \<and> (\<forall>i < length (emitted ch calls). \<exists>q. le (fzero L) q
          \<and> sum_val (emitted ch calls ! i)
              = fadd L (sum_before L (emitted ch calls) i) q)"
proof -
  obtain c st where loop: "for_rows L (init L) rows = Inr (c, st)"
    and em: "\<And>ch. emitted ch calls = series ch st"
    using emitted_update [OF run] by blast
  let ?P = "\<lambda>s. linked L s \<and> nondecreasing le L s \<and> stepwise le L s"
  have start: "?P (init L)"
    using zero
    by (simp add: linked_def nondecreasing_def stepwise_def init_channels sum_before_def)
  have keep: "?P (accumulate L k b q s)"
    if "?P s" and "r \<in> set rows" and "reading L r = Some (k, b, q)" for s r k b q
  proof -
    have q: "le (fzero L) q"
      using nonneg that(2) reading_accepted [OF that(3)] by auto
    have lk: "linked L s" and nd: "nondecreasing le L s" and sw: "stepwise le L s"
      using that(1) by simp_all
    have "linked L (accumulate L k b q s)"
      using lk by (rule linked_accumulate)
    moreover have "nondecreasing le L (accumulate L k b q s)"
      by (rule nondecreasing_accumulate [OF trans zero add q nd])
    moreover have "stepwise le L (accumulate L k b q s)"
      using q lk sw by (rule stepwise_accumulate)
    ultimately show ?thesis by simp
  qed
  have "?P st"
    by (rule for_rows_invariant [where P = "?P", OF loop start keep])
  then show ?thesis
    by (simp add: em nondecreasing_def stepwise_def)
qed

theorem running_sums_nondecreasing_witness:
  "list_all (\<lambda>r. accepted stdlib r
       \<longrightarrow> (case float stdlib (r ! 12) of None \<Rightarrow> False | Some q \<Rightarrow> fzero stdlib \<le> q))
     mixed_doc
   \<and> update stdlib mixed_doc = Inr mixed_calls
   \<and> sorted_wrt (\<le>) (fzero stdlib # map sum_val (emitted Day mixed_calls))
   \<and> map sum_val (emitted Day mixed_calls) = [1, 3.5]
   \<and> (\<exists>q. fzero stdlib \<le> q
        \<and> sum_val (emitted Day mixed_calls ! 1)
            = fadd stdlib (sum_before stdlib (emitted Day mixed_calls) 1) q)"
proof -
  have n: "list_all (\<lambda>r. accepted stdlib r
       \<longrightarrow> (case float stdlib (r ! 12) of None \<Rightarrow> False | Some q \<Rightarrow> fzero stdlib \<le> q))
     mixed_doc"
    by (simp add: mixed_doc_def accepted_def run_defs)
  have n': "\<forall>r \<in> set mixed_doc. accepted stdlib r
       \<longrightarrow> (case float stdlib (r ! 12) of None \<Rightarrow> False | Some q \<Rightarrow> fzero stdlib \<le> q)"
    using n by (simp only: list_all_iff)
  have r: "update stdlib mixed_doc = Inr mixed_calls"
    by (simp add: mixed_doc_def mixed_calls_def hour_start_def run_defs)
  have c: "sorted_wrt (\<le>) (fzero stdlib # map sum_val (emitted Day mixed_calls))
    \<and> (\<forall>i < length (emitted Day mixed_calls). \<exists>q. fzero stdlib \<le> q
          \<and> sum_val (emitted Day mixed_calls ! i)
              = fadd stdlib (sum_before stdlib (emitted Day mixed_calls) i) q)"
    by (rule running_sums_nondecreasing [where le = "(\<le>)", OF _ _ _ n' r])
      (simp_all add: stdlib_def)
  have c1: "sorted_wrt (\<le>) (fzero stdlib # map sum_val (emitted Day mixed_calls))"
    using c by (rule conjunct1)
  have l: "1 < length (emitted Day mixed_calls)"
    and v: "map sum_val (emitted Day mixed_calls) = [1, 3.5]"
    by (simp_all add: emitted_def mixed_calls_def)
  have c2: "\<exists>q. fzero stdlib \<le> q
      \<and> sum_val (emitted Day mixed_calls ! 1)
          = fadd stdlib (sum_before stdlib (emitted Day mixed_calls) 1) q"
    using c l by blast
  show ?thesis
    by (rule conjI [OF n conjI [OF r conjI [OF c1 conjI [OF v c2]]]])
qed

text \<open>
  C7. When two rows of a document are accepted into the same channel with the same bucket,
  and no row before the second of them is short enough to stop the loop, the series handed
  over for that channel has two different positions with that bucket as start, and each of
  the two points carries its own cumulative sum: the sum before it in the series plus the
  quantity of its row. Nothing is merged.
\<close>

theorem same_bucket_two_points:
  assumes r1: "reading L r1 = Some (ch, b, q1)" and r2: "reading L r2 = Some (ch, b, q2)"
    and reached: "\<forall>r \<in> set (pre @ mid). 2 \<le> length r"
    and run: "update L (pre @ r1 # mid @ r2 # rest) = Inr calls"
  shows "\<exists>i j. i < j \<and> j < length (emitted ch calls)
    \<and> start (emitted ch calls ! i) = b \<and> start (emitted ch calls ! j) = b
    \<and> sum_val (emitted ch calls ! i) = fadd L (sum_before L (emitted ch calls) i) q1
    \<and> sum_val (emitted ch calls ! j) = fadd L (sum_before L (emitted ch calls) j) q2"
proof -
  obtain c stf where all: "for_rows L (init L) (pre @ r1 # mid @ r2 # rest) = Inr (c, stf)"
    and em: "\<And>ch. emitted ch calls = series ch stf"
    using emitted_update [OF run] by blast
  obtain s0 where pre: "for_rows L (init L) pre = Inr (Next, s0)"
    and a1: "for_rows L s0 (r1 # mid @ r2 # rest) = Inr (c, stf)"
    using for_rows_prefix [OF all] reached by auto
  define s1 where "s1 = accumulate L ch b q1 s0"
  have a2: "for_rows L s1 (mid @ r2 # rest) = Inr (c, stf)"
    using a1 by (simp add: row_step_reading [OF r1] s1_def)
  obtain s2 where mid: "for_rows L s1 mid = Inr (Next, s2)"
    and a3: "for_rows L s2 (r2 # rest) = Inr (c, stf)"
    using for_rows_prefix [OF a2] reached by auto
  define s3 where "s3 = accumulate L ch b q2 s2"
  have a4: "for_rows L s3 rest = Inr (c, stf)"
    using a3 by (simp add: row_step_reading [OF r2] s3_def)
  have l0: "linked L s0"
    using pre by (rule linked_for_rows [rotated]) (simp add: linked_def init_channels sum_before_def)
  have l2: "linked L s2"
    using linked_accumulate [OF l0] mid unfolding s1_def by (rule linked_for_rows)
  define p1 where "p1 = \<lparr>start = b, sum_val = fadd L (running ch s0) q1\<rparr>"
  define p2 where "p2 = \<lparr>start = b, sum_val = fadd L (running ch s2) q2\<rparr>"
  obtain e1 where e1: "series ch s2 = series ch s1 @ e1"
    using series_for_rows [OF mid] by blast
  obtain e2 where e2: "series ch stf = series ch s3 @ e2"
    using series_for_rows [OF a4] by blast
  have t1: "series ch s1 = series ch s0 @ [p1]"
    by (simp add: s1_def p1_def series_accumulate)
  have t3: "series ch s3 = series ch s2 @ [p2]"
    by (simp add: s3_def p2_def series_accumulate)
  let ?pts = "emitted ch calls"
  let ?i = "length (series ch s0)"
  let ?j = "length (series ch s2)"
  have pts1: "?pts = series ch s0 @ (p1 # e1 @ p2 # e2)"
    by (simp add: em e2 t3 e1 t1)
  have pts2: "?pts = series ch s2 @ (p2 # e2)"
    by (simp add: em e2 t3)
  have ij: "?i < ?j" by (simp add: e1 t1)
  have jn: "?j < length ?pts" by (simp add: pts2)
  have pi: "?pts ! ?i = p1" by (simp add: pts1)
  have pj: "?pts ! ?j = p2" by (simp add: pts2)
  have bi: "sum_before L ?pts ?i = running ch s0"
    using l0 by (simp add: pts1 sum_before_append linked_def)
  have bj: "sum_before L ?pts ?j = running ch s2"
    using l2 by (simp add: pts2 sum_before_append linked_def)
  have "?i < ?j \<and> ?j < length ?pts \<and> start (?pts ! ?i) = b \<and> start (?pts ! ?j) = b
    \<and> sum_val (?pts ! ?i) = fadd L (sum_before L ?pts ?i) q1
    \<and> sum_val (?pts ! ?j) = fadd L (sum_before L ?pts ?j) q2"
    using ij jn by (simp add: pi pj bi bj p1_def p2_def)
  then show ?thesis by blast
qed

theorem same_bucket_two_points_witness:
  "reading stdlib (det_row ''E'' ''15/03/2023 10:15:00'' ''RD'' ''1.0'')
     = Some (Day, hour_start 10, 1)
   \<and> reading stdlib (det_row ''E'' ''15/03/2023 10:45:00'' ''RD'' ''2.5'')
     = Some (Day, hour_start 10, 2.5)
   \<and> list_all (\<lambda>r. 2 \<le> length r)
       ([[''HDR'', ''ICPHH'']] @ [det_row ''I'' ''15/03/2023 10:30:00'' ''RD'' ''0.5''])
   \<and> update stdlib ([[''HDR'', ''ICPHH'']]
        @ det_row ''E'' ''15/03/2023 10:15:00'' ''RD'' ''1.0''
        # [det_row ''I'' ''15/03/2023 10:30:00'' ''RD'' ''0.5'']
        @ det_row ''E'' ''15/03/2023 10:45:00'' ''RD'' ''2.5'' # [])
     = Inr same_hour_calls
   \<and> map sum_val (emitted Day same_hour_calls) = [1, 3.5]
   \<and> (\<exists>i j. i < j \<and> j < length (emitted Day same_hour_calls)
        \<and> start (emitted Day same_hour_calls ! i) = hour_start 10
        \<and> start (emitted Day same_hour_calls ! j) = hour_start 10
        \<and> sum_val (emitted Day same_hour_calls ! i)
            = fadd stdlib (sum_before stdlib (emitted Day same_hour_calls) i) 1
        \<and> sum_val (emitted Day same_hour_calls ! j)
            = fadd stdlib (sum_before stdlib (emitted Day same_hour_calls) j) 2.5)"
proof -
  have 1: "reading stdlib (det_row ''E'' ''15/03/2023 10:15:00'' ''RD'' ''1.0'')
     = Some (Day, hour_start 10, 1)"
    by (simp add: reading_def accepted_def channel_for_def hour_start_def run_defs)
  have 2: "reading stdlib (det_row ''E'' ''15/03/2023 10:45:00'' ''RD'' ''2.5'')
     = Some (Day, hour_start 10, 2.5)"
    by (simp add: reading_def accepted_def channel_for_def hour_start_def run_defs)
  have 3: "list_all (\<lambda>r. 2 \<le> length r)
       ([[''HDR'', ''ICPHH'']] @ [det_row ''I'' ''15/03/2023 10:30:00'' ''RD'' ''0.5''])"
    by (simp add: det_row_def)
  have reached: "\<forall>r \<in> set ([[''HDR'', ''ICPHH'']]
       @ [det_row ''I'' ''15/03/2023 10:30:00'' ''RD'' ''0.5'']). 2 \<le> length r"
    using 3 by (simp only: list_all_iff)
  have 4: "update stdlib ([[''HDR'', ''ICPHH'']]
        @ det_row ''E'' ''15/03/2023 10:15:00'' ''RD'' ''1.0''
        # [det_row ''I'' ''15/03/2023 10:30:00'' ''RD'' ''0.5'']
        @ det_row ''E'' ''15/03/2023 10:45:00'' ''RD'' ''2.5'' # [])
     = Inr same_hour_calls"
    by (simp add: same_hour_calls_def hour_start_def run_defs)
  have v: "map sum_val (emitted Day same_hour_calls) = [1, 3.5]"
    by (simp add: emitted_def same_hour_calls_def)
  have 5: "(\<exists>i j. i < j \<and> j < length (emitted Day same_hour_calls)
        \<and> start (emitted Day same_hour_calls ! i) = hour_start 10
        \<and> start (emitted Day same_hour_calls ! j) = hour_start 10
        \<and> sum_val (emitted Day same_hour_calls ! i)
            = fadd stdlib (sum_before stdlib (emitted Day same_hour_calls) i) 1
        \<and> sum_val (emitted Day same_hour_calls ! j)
            = fadd stdlib (sum_before stdlib (emitted Day same_hour_calls) j) 2.5)"
    by (rule same_bucket_two_points [OF 1 2 reached 4])
  show ?thesis
    by (rule conjI [OF 1 conjI [OF 2 conjI [OF 3 conjI [OF 4 conjI [OF v 5]]]]])
qed

subsection \<open>The calls of the recorder\<close>

text \<open>
  C9. A run of \<open>update\<close> that completes makes exactly three calls, in the order Solar,
  Day, Night, with the statistic ids \<^verbatim>\<open>return_to_grid\<close>, \<^verbatim>\<open>consumption_day\<close> and
  \<^verbatim>\<open>consumption_night\<close> under the domain, each in kilowatt-hours, and each with the
  series the loop built, empty or not.
\<close>

theorem three_sink_calls:
  assumes "update L rows = Inr calls"
  shows "length calls = 3
    \<and> map fst calls = [solarMetadata L, dayMetadata L, nightMetadata L]
    \<and> map (statistic_id \<circ> fst) calls =
        [DOMAIN L @ '':return_to_grid'', DOMAIN L @ '':consumption_day'',
         DOMAIN L @ '':consumption_night'']
    \<and> (\<forall>c \<in> set calls. unit_of_measurement (fst c) = KILO_WATT_HOUR)
    \<and> (\<exists>c st. for_rows L (init L) rows = Inr (c, st)
         \<and> map snd calls = [solarStatistics st, dayStatistics st, nightStatistics st])"
  using assms
  by (auto simp: update_def solarMetadata_def dayMetadata_def nightMetadata_def
      split: sum.splits prod.splits)

theorem three_sink_calls_witness:
  "update stdlib [] = Inr [(solarMetadata stdlib, []), (dayMetadata stdlib, []),
                          (nightMetadata stdlib, [])]
   \<and> length [(solarMetadata stdlib, []::real StatisticData list), (dayMetadata stdlib, []),
              (nightMetadata stdlib, [])] = 3
   \<and> map (statistic_id \<circ> fst)
        [(solarMetadata stdlib, []::real StatisticData list), (dayMetadata stdlib, []),
         (nightMetadata stdlib, [])]
      = [''meridian_energy:return_to_grid'', ''meridian_energy:consumption_day'',
         ''meridian_energy:consumption_night'']"
proof -
  have u: "update stdlib [] = Inr [(solarMetadata stdlib, []), (dayMetadata stdlib, []),
                          (nightMetadata stdlib, [])]"
    by (simp add: update_def init_def)
  show ?thesis
    using three_sink_calls [OF u] u by (simp add: stdlib_def)
qed

end
